theory Spec2Isabelle
  imports Main "HOL-Library.AList" "HOL-Library.Log_Nat"
begin

section \<open>Python values, errors and the argparse namespace\<close>

text \<open>
  The two source files are read as Python 3 (\<open>/\<close> is true division).  An exception is a value of
  type \<open>error\<close>.  A function that mutates the namespace returns the outcome (\<open>None\<close>: it
  returned, \<open>Some e\<close>: it raised \<open>e\<close>) together with the namespace as the call leaves it.
\<close>

datatype error =
    AttributeError string
  | CLIError string
  | ValueError
  | ZeroDivisionError
  | OverflowError

text \<open>
  An \<open>argparse.Namespace\<close> is an attribute dictionary: an association list in insertion
  order.  \<open>vars\<close> lists the attribute names, \<open>getattr\<close> raises \<open>AttributeError\<close> on a
  missing name, \<open>setattr\<close> overwrites in place or appends, \<open>delattr\<close> removes.  The type
  parameter is the type of the values the modelled function reads.
\<close>

type_synonym 'v namespace = "(string \<times> 'v) list"

definition vars :: "'v namespace \<Rightarrow> string list" where
  "vars ns = map fst ns"

definition getattr :: "'v namespace \<Rightarrow> string \<Rightarrow> error + 'v" where
  "getattr ns k = (case map_of ns k of None \<Rightarrow> Inl (AttributeError k) | Some v \<Rightarrow> Inr v)"

definition setattr :: "'v namespace \<Rightarrow> string \<Rightarrow> 'v \<Rightarrow> 'v namespace" where
  "setattr ns k v = AList.update k v ns"

definition delattr :: "'v namespace \<Rightarrow> string \<Rightarrow> 'v namespace" where
  "delattr ns k = AList.delete k ns"

section \<open>\<open>_validators.py\<close>: the standalone validators\<close>

subsection \<open>\<open>validate_managed_instance_storage_size\<close>\<close>

text \<open>
  \<open>storage_size_in_gb\<close> is \<open>None\<close> or the \<open>int\<close> the size converter returned.
  \<open>not x\<close> holds for \<open>None\<close> and for \<open>0\<close>; \<open>x % 32\<close> on Python integers is the floor
  modulus, which is \<open>mod\<close> on \<open>int\<close>.
\<close>

definition truthy_int :: "int option \<Rightarrow> bool" where
  "truthy_int x = (case x of None \<Rightarrow> False | Some n \<Rightarrow> n \<noteq> 0)"

definition storage_usage_error :: error where
  "storage_usage_error =
     CLIError ''incorrect usage: --storage must be specified in increments of 32 GB''"

definition validate_managed_instance_storage_size ::
    "int option namespace \<Rightarrow> error option \<times> int option namespace" where
  "validate_managed_instance_storage_size ns =
     (case getattr ns ''storage_size_in_gb'' of
        Inl e \<Rightarrow> (Some e, ns)
      | Inr x \<Rightarrow>
          if (\<not> truthy_int x) \<or> (truthy_int x \<and> (case x of None \<Rightarrow> False | Some n \<Rightarrow> n mod 32 = 0))
          then (None, ns)
          else (Some storage_usage_error, ns))"

subsection \<open>\<open>validate_subnet\<close>\<close>

text \<open>
  The attributes read here hold \<open>None\<close> or a \<open>str\<close>.  \<open>is_valid_resource_id\<close> belongs to the
  library \<open>msrestazure.tools\<close> and is a parameter; \<open>subscription\<close> is what
  \<open>get_subscription_id(cmd.cli_ctx)\<close> returns.
\<close>

definition truthy_str :: "string option \<Rightarrow> bool" where
  "truthy_str x = (case x of None \<Rightarrow> False | Some s \<Rightarrow> s \<noteq> [])"

text \<open>
  Modelled from the spec: \<open>resource_id\<close> of the library \<open>msrestazure.tools\<close>, which is not
  under src/.  The spec (4.3 and 8) gives the identifier it builds from a subscription, a
  resource group, the provider namespace, the type and name, and one child type and name:
  \<open>/subscriptions/S/resourceGroups/RG/providers/Microsoft.Network/virtualNetworks/V/subnets/N\<close>.
  The spec is silent about a resource group that is \<open>None\<close>; the library leaves the
  \<open>resourceGroups\<close> segment out then, and no theorem below uses that branch.
\<close>

definition resource_id ::
    "string \<Rightarrow> string option \<Rightarrow> string \<Rightarrow> string \<Rightarrow> string \<Rightarrow> string \<Rightarrow> string \<Rightarrow> string" where
  "resource_id subscription resource_group namespace type name child_type_1 child_name_1 =
     ''/subscriptions/'' @ subscription
     @ (case resource_group of None \<Rightarrow> [] | Some rg \<Rightarrow> ''/resourceGroups/'' @ rg)
     @ ''/providers/'' @ namespace
     @ ''/'' @ type @ ''/'' @ name
     @ ''/'' @ child_type_1 @ ''/'' @ child_name_1"

definition subnet_usage_error :: error where
  "subnet_usage_error =
     CLIError ''incorrect usage: [--subnet ID | --subnet NAME --vnet-name NAME]''"

text \<open>
  The \<open>elif\<close> condition \<open>subnet and not subnet_is_id and vnet\<close> makes both values non-empty
  strings; the \<open>case\<close> below extracts them, and every other shape falls to the \<open>else\<close>.
\<close>

definition validate_subnet ::
    "(string option \<Rightarrow> bool) \<Rightarrow> string \<Rightarrow> string option namespace
       \<Rightarrow> error option \<times> string option namespace" where
  "validate_subnet is_valid_resource_id subscription ns =
     (case getattr ns ''virtual_network_subnet_id'' of
        Inl e \<Rightarrow> (Some e, ns)
      | Inr subnet \<Rightarrow>
          let subnet_is_id = is_valid_resource_id subnet in
          (case getattr ns ''vnet_name'' of
             Inl e \<Rightarrow> (Some e, ns)
           | Inr vnet \<Rightarrow>
               if (subnet_is_id \<and> \<not> truthy_str vnet) \<or> (\<not> truthy_str subnet \<and> \<not> truthy_str vnet)
               then (None, delattr ns ''vnet_name'')
               else if truthy_str subnet \<and> \<not> subnet_is_id \<and> truthy_str vnet
               then (case (subnet, vnet) of
                       (Some s, Some v) \<Rightarrow>
                         (case getattr ns ''resource_group_name'' of
                            Inl e \<Rightarrow> (Some e, ns)
                          | Inr rg \<Rightarrow>
                              (None,
                               delattr
                                 (setattr ns ''virtual_network_subnet_id''
                                    (Some (resource_id subscription rg ''Microsoft.Network''
                                             ''virtualNetworks'' v ''subnets'' s)))
                                 ''vnet_name''))
                     | _ \<Rightarrow> (Some subnet_usage_error, ns))
               else (Some subnet_usage_error, ns)))"

text \<open>
  For closed examples, a stand-in for the library's \<open>is_valid_resource_id\<close>: it accepts
  the strings that start with \<open>/subscriptions/\<close>.
\<close>

definition sample_is_valid_resource_id :: "string option \<Rightarrow> bool" where
  "sample_is_valid_resource_id r =
     (case r of None \<Rightarrow> False | Some s \<Rightarrow> take 15 s = ''/subscriptions/'')"

section \<open>\<open>_validators.py\<close>: the complex-argument aggregator\<close>

text \<open>
  The values an aggregated flag can hold: \<open>None\<close>, booleans, integers, strings, lists, and
  the model objects the SDK constructors return.  A model object is recorded as the
  keyword arguments it was constructed from (the SDK classes are not under src/; they
  define neither \<open>__bool__\<close> nor \<open>__len__\<close>, so an object is truthy).
\<close>

datatype pyval =
    PNone
  | PBool bool
  | PInt int
  | PStr string
  | PList "pyval list"
  | PModel "(string \<times> pyval) list"

fun truthy :: "pyval \<Rightarrow> bool" where
  "truthy PNone = False"
| "truthy (PBool b) = b"
| "truthy (PInt i) = (i \<noteq> 0)"
| "truthy (PStr s) = (s \<noteq> [])"
| "truthy (PList xs) = (xs \<noteq> [])"
| "truthy (PModel kw) = True"

text \<open>
  An element of \<open>arguments\<close> is a string (property name and key coincide) or a tuple
  \<open>(property_name, property_key)\<close>.
\<close>

datatype argument = Plain string | Tuple string string

fun property_name :: "argument \<Rightarrow> string" where
  "property_name (Plain a) = a"
| "property_name (Tuple n k) = n"

fun property_key :: "argument \<Rightarrow> string" where
  "property_key (Plain a) = a"
| "property_key (Tuple n k) = k"

text \<open>
  The loop of \<open>create_args_for_complex_type\<close> over \<open>arguments\<close>, as far as the dictionary
  \<open>model_properties\<close> goes: \<open>model_properties[property_key] = property_name\<close>.  The calls
  \<open>arg_ctx.extra\<close> register flags with the CLI framework and leave the dictionary alone.
\<close>

definition model_properties_of :: "argument list \<Rightarrow> (string \<times> string) list" where
  "model_properties_of arguments =
     foldl (\<lambda>mp arg. AList.update (property_key arg) (property_name arg) mp) [] arguments"

text \<open>\<open>matched_keys = [k for k in vars(namespace) if k in model_properties]\<close>\<close>

definition matched_keys :: "(string \<times> string) list \<Rightarrow> 'v namespace \<Rightarrow> string list" where
  "matched_keys model_properties ns =
     filter (\<lambda>k. map_of model_properties k \<noteq> None) (vars ns)"

text \<open>
  \<open>dict(pairs)\<close>: a later pair with the same key overwrites the value and keeps the place
  of the first.
\<close>

definition dict_of :: "('k \<times> 'v) list \<Rightarrow> ('k \<times> 'v) list" where
  "dict_of pairs = foldl (\<lambda>d kv. AList.update (fst kv) (snd kv) d) [] pairs"

text \<open>
  \<open>properties = dict((model_properties[k], getattr(namespace, k)) for k in matched_keys)\<close>.
  Both lookups succeed on a matched key; the list comprehension skips nothing.
\<close>

fun property_pairs ::
    "(string \<times> string) list \<Rightarrow> 'v namespace \<Rightarrow> string list \<Rightarrow> (string \<times> 'v) list" where
  "property_pairs model_properties ns [] = []"
| "property_pairs model_properties ns (k # ks) =
     (case (map_of model_properties k, map_of ns k) of
        (Some p, Some v) \<Rightarrow> (p, v) # property_pairs model_properties ns ks
      | _ \<Rightarrow> property_pairs model_properties ns ks)"

definition properties_of :: "(string \<times> string) list \<Rightarrow> 'v namespace \<Rightarrow> (string \<times> 'v) list" where
  "properties_of model_properties ns =
     dict_of (property_pairs model_properties ns (matched_keys model_properties ns))"

text \<open>
  \<open>_expansion_validator_impl\<close>, closed over \<open>model_properties\<close>, \<open>assigned_arg\<close> and
  \<open>model_type\<close>.  Every key the final loop deletes was read from the namespace before, so
  no \<open>delattr\<close> raises.
\<close>

definition expansion_validator_impl ::
    "(string \<times> string) list \<Rightarrow> string \<Rightarrow> ((string \<times> pyval) list \<Rightarrow> pyval)
       \<Rightarrow> pyval namespace \<Rightarrow> pyval namespace" where
  "expansion_validator_impl model_properties assigned_arg model_type ns =
     (let matched = matched_keys model_properties ns;
          properties = properties_of model_properties ns;
          ns1 = (if list_ex truthy (map snd properties)
                 then setattr ns assigned_arg (model_type properties)
                 else ns)
      in foldl delattr ns1 matched)"

text \<open>
  \<open>create_args_for_complex_type\<close>: the validator it attaches to \<open>dest\<close>, and none when
  \<open>dest\<close> is empty.
\<close>

definition create_args_for_complex_type ::
    "string \<Rightarrow> ((string \<times> pyval) list \<Rightarrow> pyval) \<Rightarrow> argument list
       \<Rightarrow> (pyval namespace \<Rightarrow> pyval namespace) option" where
  "create_args_for_complex_type dest model_type arguments =
     (let model_properties = model_properties_of arguments
      in if dest \<noteq> []
         then Some (expansion_validator_impl model_properties dest model_type)
         else None)"

section \<open>\<open>_params.py\<close>: \<open>SizeWithUnitConverter\<close>\<close>

subsection \<open>Python numbers\<close>

text \<open>
  A Python \<open>int\<close> is unbounded.  A Python \<open>float\<close> is an IEEE 754 binary64: a finite one is
  a rational with a 53-bit significand, and arithmetic rounds the exact result to the
  nearest such value, ties to the even significand.  The sign of a zero is not kept: no
  result below depends on it.
\<close>

datatype pyfloat = Finite rat | Infinity bool | NaN

datatype number = PyInt int | PyFloat rat

definition pow2 :: "int \<Rightarrow> rat" where
  "pow2 e = (if 0 \<le> e then 2 ^ nat e else 1 / 2 ^ nat (- e))"

definition round_half_even :: "rat \<Rightarrow> int" where
  "round_half_even x =
     (let f = \<lfloor>x\<rfloor>; r = x - of_int f
      in if r < 1 / 2 then f
         else if 1 / 2 < r then f + 1
         else if even f then f else f + 1)"

text \<open>For \<open>0 < x\<close>, \<open>binade x\<close> is the \<open>e\<close> with \<open>2^e \<le> x < 2^(e+1)\<close>.\<close>

definition binade :: "rat \<Rightarrow> int" where
  "binade x =
     (let (p, q) = quotient_of x; d = bitlen p - bitlen q
      in if pow2 d \<le> x then d else d - 1)"

text \<open>
  Rounding a rational to binary64: the spacing of the doubles around \<open>x\<close> is
  \<open>2^(e - 52)\<close>, with \<open>e\<close> the binade of \<open>|x|\<close> and at least \<open>-1022\<close> (subnormals); a
  result of magnitude \<open>2^1024\<close> or more is an infinity (the flag is the sign: negative).
\<close>

definition to_double :: "rat \<Rightarrow> pyfloat" where
  "to_double x =
     (if x = 0 then Finite 0
      else let a = \<bar>x\<bar>;
               e = max (binade a) (- 1022);
               ulp = pow2 (e - 52);
               y = of_int (round_half_even (a / ulp)) * ulp
           in if pow2 1024 \<le> y then Infinity (x < 0)
              else Finite (if x < 0 then - y else y))"


text \<open>\<open>float(n)\<close> for an \<open>int\<close>, also when an \<open>int\<close> meets a \<open>float\<close> in arithmetic.\<close>

definition float_of_int :: "int \<Rightarrow> error + rat" where
  "float_of_int n =
     (case to_double (of_int n) of Finite r \<Rightarrow> Inr r | _ \<Rightarrow> Inl OverflowError)"

definition as_float :: "number \<Rightarrow> error + rat" where
  "as_float a = (case a of PyInt n \<Rightarrow> float_of_int n | PyFloat r \<Rightarrow> Inr r)"

text \<open>
  \<open>a / b\<close>: between two \<open>int\<close>s the correctly rounded quotient (\<open>OverflowError\<close> when it
  is too large for a \<open>float\<close>); otherwise both sides become \<open>float\<close>s and the IEEE quotient
  is taken.  A zero divisor raises \<open>ZeroDivisionError\<close>.
\<close>

definition py_truediv :: "number \<Rightarrow> number \<Rightarrow> error + pyfloat" where
  "py_truediv a b =
     (case (a, b) of
        (PyInt x, PyInt y) \<Rightarrow>
          if y = 0 then Inl ZeroDivisionError
          else (case to_double (of_int x / of_int y) of
                  Finite r \<Rightarrow> Inr (Finite r)
                | _ \<Rightarrow> Inl OverflowError)
      | _ \<Rightarrow>
          (case as_float a of
             Inl e \<Rightarrow> Inl e
           | Inr x \<Rightarrow>
               (case as_float b of
                  Inl e \<Rightarrow> Inl e
                | Inr y \<Rightarrow> if y = 0 then Inl ZeroDivisionError else Inr (to_double (x / y)))))"

text \<open>\<open>u * n\<close> for a \<open>float\<close> \<open>u\<close> and an \<open>int\<close> \<open>n\<close>.\<close>

definition py_mul_float_int :: "pyfloat \<Rightarrow> int \<Rightarrow> error + pyfloat" where
  "py_mul_float_int u n =
     (case float_of_int n of
        Inl e \<Rightarrow> Inl e
      | Inr y \<Rightarrow>
          Inr (case u of
                 Finite x \<Rightarrow> to_double (x * y)
               | Infinity s \<Rightarrow> if y = 0 then NaN else Infinity (s \<noteq> (y < 0))
               | NaN \<Rightarrow> NaN))"

text \<open>\<open>int(x)\<close> for a \<open>float\<close>: truncation towards zero.\<close>

definition int_of_float :: "pyfloat \<Rightarrow> error + int" where
  "int_of_float x =
     (case x of
        Finite r \<Rightarrow> Inr (if 0 \<le> r then \<lfloor>r\<rfloor> else \<lceil>r\<rceil>)
      | Infinity s \<Rightarrow> Inl OverflowError
      | NaN \<Rightarrow> Inl ValueError)"

subsection \<open>Strings of digits\<close>

text \<open>
  \<open>str.isdigit\<close> on the ASCII characters of a command line, and \<open>int(s)\<close> on a string of
  such digits: \<open>ValueError\<close> for the empty string, the decimal value otherwise.
\<close>

definition isdigit :: "char \<Rightarrow> bool" where
  "isdigit c = (48 \<le> (of_char c :: nat) \<and> (of_char c :: nat) \<le> 57)"

definition digit_value :: "char \<Rightarrow> int" where
  "digit_value c = int (of_char c) - 48"

definition int_of_digits :: "string \<Rightarrow> error + int" where
  "int_of_digits s =
     (if s = [] then Inl ValueError
      else Inr (foldl (\<lambda>a c. 10 * a + digit_value c) 0 s))"

subsection \<open>The converter\<close>

text \<open>
  \<open>result_type\<close> is \<open>int\<close> in both instances of the class and is fixed to it here.  The unit
  map holds \<open>int\<close>s or finite \<open>float\<close>s.
\<close>

record size_with_unit_converter =
  unit :: string
  unit_map :: "(string \<times> number) list"

definition default_unit_map :: "(string \<times> number) list" where
  "default_unit_map =
     [(''B'', PyInt 1), (''kB'', PyInt 1024), (''MB'', PyInt (1024 * 1024)),
      (''GB'', PyInt (1024 * 1024 * 1024)), (''TB'', PyInt (1024 * 1024 * 1024 * 1024))]"

text \<open>\<open>__init__\<close>: \<open>unit_map or dict(B=1, ...)\<close> takes the default for \<open>None\<close> and for \<open>{}\<close>.\<close>

definition SizeWithUnitConverter ::
    "string \<Rightarrow> (string \<times> number) list option \<Rightarrow> size_with_unit_converter" where
  "SizeWithUnitConverter u m =
     \<lparr>unit = u,
      unit_map = (case m of None \<Rightarrow> default_unit_map
                  | Some d \<Rightarrow> if d = [] then default_unit_map else d)\<rparr>"

text \<open>
  \<open>__call__\<close>.  \<open>None\<close> as the result of a lookup is the \<open>KeyError\<close> that the \<open>except\<close>
  clause turns into \<open>ValueError\<close>; every other exception leaves the \<open>try\<close> as it is.  The
  operands are evaluated left to right: the unit's factor, the base's factor, the
  division, \<open>int(numeric_part)\<close>, the product, the final \<open>int(...)\<close>.
\<close>

definition factor_of :: "(string \<times> number) list \<Rightarrow> string \<Rightarrow> number option" where
  "factor_of m u = (if u \<noteq> [] then map_of m u else Some (PyInt 1))"

definition call :: "size_with_unit_converter \<Rightarrow> string \<Rightarrow> error + int" where
  "call self value =
     (let numeric_part = takeWhile isdigit value;
          unit_part = drop (length numeric_part) value
      in case factor_of (unit_map self) unit_part of
           None \<Rightarrow> Inl ValueError
         | Some a \<Rightarrow>
             (case factor_of (unit_map self) (unit self) of
                None \<Rightarrow> Inl ValueError
              | Some b \<Rightarrow>
                  (case py_truediv a b of
                     Inl e \<Rightarrow> Inl e
                   | Inr uvals \<Rightarrow>
                       (case int_of_digits numeric_part of
                          Inl e \<Rightarrow> Inl e
                        | Inr n \<Rightarrow>
                            (case py_mul_float_int uvals n of
                               Inl e \<Rightarrow> Inl e
                             | Inr p \<Rightarrow> int_of_float p)))))"

text \<open>
  The two instances: \<open>max_size_bytes_param_type\<close> (base \<open>B\<close>, default map) and
  \<open>storage_param_type\<close> (base \<open>GB\<close>).  The source writes the entries of the second map as
  \<open>1.0 / (1024 * 1024 * 1024)\<close>, \<open>1.0 / (1024 * 1024)\<close> and \<open>1.0 / 1024\<close>; they are the
  values of these divisions (lemma \<open>storage_unit_map_entries\<close>).
\<close>

definition max_size_converter :: size_with_unit_converter where
  "max_size_converter = SizeWithUnitConverter ''B'' None"

definition storage_unit_map :: "(string \<times> number) list" where
  "storage_unit_map =
     [(''B'', PyFloat (1 / (1024 * 1024 * 1024))), (''kB'', PyFloat (1 / (1024 * 1024))),
      (''MB'', PyFloat (1 / 1024)), (''GB'', PyInt 1), (''TB'', PyInt 1024)]"

definition storage_converter :: size_with_unit_converter where
  "storage_converter = SizeWithUnitConverter ''GB'' (Some storage_unit_map)"

section \<open>Lemmas about namespaces and dictionaries\<close>

lemma getattr_Inr_iff: "getattr ns k = Inr v \<longleftrightarrow> map_of ns k = Some v"
  by (simp add: getattr_def split: option.splits)

lemma getattr_setattr:
  "getattr (setattr ns k v) k' = (if k' = k then Inr v else getattr ns k')"
  by (simp add: getattr_def setattr_def update_conv')

lemma getattr_delattr:
  "getattr (delattr ns k) k' = (if k' = k then Inl (AttributeError k) else getattr ns k')"
  by (simp add: getattr_def delattr_def delete_conv')

lemma getattr_foldl_delattr:
  "getattr (foldl delattr ns ks) k =
     (if k \<in> set ks then Inl (AttributeError k) else getattr ns k)"
proof (induction ks arbitrary: ns)
  case Nil
  show ?case by simp
next
  case (Cons a ks)
  show ?case by (simp add: Cons.IH getattr_delattr)
qed

lemma matched_keys_iff:
  "k \<in> set (matched_keys mp ns) \<longleftrightarrow> map_of ns k \<noteq> None \<and> map_of mp k \<noteq> None"
  by (auto simp: matched_keys_def vars_def map_of_eq_None_iff)

lemma map_of_foldl_update:
  "map_of (foldl (\<lambda>d kv. AList.update (fst kv) (snd kv) d) d0 ps)
     = map_of d0 ++ map_of (rev ps)"
proof (induction ps arbitrary: d0)
  case Nil
  show ?case by simp
next
  case (Cons p ps)
  show ?case by (cases p) (simp add: Cons.IH update_conv' map_add_upd_left fun_eq_iff map_add_def split: option.splits)
qed

lemma map_of_dict_of: "map_of (dict_of ps) = map_of (rev ps)"
  by (simp add: dict_of_def map_of_foldl_update)

lemma keys_foldl_update:
  "fst ` set (foldl (\<lambda>d kv. AList.update (fst kv) (snd kv) d) d0 ps)
     = fst ` set d0 \<union> fst ` set ps"
  by (induction ps arbitrary: d0) (auto simp: dom_update)

lemma foldl_update_distinct:
  "distinct (map fst d0) \<Longrightarrow>
   distinct (map fst (foldl (\<lambda>d kv. AList.update (fst kv) (snd kv) d) d0 ps))"
  by (induction ps arbitrary: d0) (simp_all add: distinct_update)

lemma keys_dict_of: "fst ` set (dict_of ps) = fst ` set ps"
  by (simp add: dict_of_def keys_foldl_update)

lemma property_pairs_iff:
  "(p, v) \<in> set (property_pairs mp ns ks)
     \<longleftrightarrow> (\<exists>k \<in> set ks. map_of mp k = Some p \<and> map_of ns k = Some v)"
  by (induction ks) (auto split: option.splits)

lemma map_of_rev_unique:
  assumes "(p, v) \<in> set ps" and "\<forall>w. (p, w) \<in> set ps \<longrightarrow> w = v"
  shows "map_of (rev ps) p = Some v"
proof -
  from assms(1) have "p \<in> fst ` set (rev ps)" by force
  then obtain w where w: "map_of (rev ps) p = Some w"
    by (metis map_of_eq_None_iff not_Some_eq)
  then have "(p, w) \<in> set ps" by (auto dest: map_of_SomeD)
  with assms(2) w show ?thesis by simp
qed

text \<open>
  A matched key contributes its value under its property name, when no other matched
  key carries the same property name.
\<close>

lemma properties_of_lookup:
  assumes "map_of mp k = Some p" and "map_of ns k = Some v"
      and "\<forall>k'. map_of mp k' = Some p \<and> map_of ns k' \<noteq> None \<longrightarrow> k' = k"
  shows "map_of (properties_of mp ns) p = Some v"
proof -
  let ?ps = "property_pairs mp ns (matched_keys mp ns)"
  from assms(1,2) have "k \<in> set (matched_keys mp ns)" by (simp add: matched_keys_iff)
  with assms(1,2) have "(p, v) \<in> set ?ps" unfolding property_pairs_iff by blast
  moreover have "\<forall>w. (p, w) \<in> set ?ps \<longrightarrow> w = v"
  proof (intro allI impI)
    fix w
    assume "(p, w) \<in> set ?ps"
    then obtain k' where k': "map_of mp k' = Some p" "map_of ns k' = Some w"
      unfolding property_pairs_iff by blast
    with assms(3) have "k' = k" by blast
    with k'(2) assms(2) show "w = v" by simp
  qed
  ultimately have "map_of (rev ?ps) p = Some v" by (rule map_of_rev_unique)
  then show ?thesis by (simp add: properties_of_def map_of_dict_of)
qed

lemma property_pairs_keys:
  "p \<in> fst ` set (property_pairs mp ns ks)
     \<longleftrightarrow> (\<exists>k \<in> set ks. map_of mp k = Some p \<and> map_of ns k \<noteq> None)"
  by (induction ks) (auto split: option.splits)

lemma properties_of_keys:
  "p \<in> fst ` set (properties_of mp ns)
     \<longleftrightarrow> (\<exists>k. map_of mp k = Some p \<and> map_of ns k \<noteq> None)"
  unfolding properties_of_def keys_dict_of property_pairs_keys
  by (auto simp: matched_keys_iff)

lemma properties_of_values:
  assumes "v \<in> snd ` set (properties_of mp ns)"
  shows "\<exists>k \<in> set (matched_keys mp ns). map_of ns k = Some v"
proof -
  let ?ps = "property_pairs mp ns (matched_keys mp ns)"
  from assms obtain p where pv: "(p, v) \<in> set (properties_of mp ns)" by force
  have "distinct (map fst (properties_of mp ns))"
    unfolding properties_of_def dict_of_def
    by (rule foldl_update_distinct) simp
  with pv have "map_of (properties_of mp ns) p = Some v" by simp
  then have "map_of (rev ?ps) p = Some v"
    by (simp add: properties_of_def map_of_dict_of)
  then have "(p, v) \<in> set ?ps" by (auto dest: map_of_SomeD)
  then show ?thesis by (auto simp: property_pairs_iff)
qed


lemma expansion_nothing_truthy:
  assumes "\<not> list_ex truthy (map snd (properties_of mp ns))"
  shows "expansion_validator_impl mp dest model_type ns = foldl delattr ns (matched_keys mp ns)"
  using assms by (simp add: expansion_validator_impl_def Let_def)

lemma expansion_some_truthy:
  assumes "list_ex truthy (map snd (properties_of mp ns))"
  shows "expansion_validator_impl mp dest model_type ns
           = foldl delattr (setattr ns dest (model_type (properties_of mp ns))) (matched_keys mp ns)"
  using assms by (simp add: expansion_validator_impl_def Let_def)

lemma distinct_snd_inj:
  assumes "distinct (map snd mp)" and "map_of mp k = Some p" and "map_of mp k' = Some p"
  shows "k' = k"
proof -
  from assms(2,3) have "(k, p) \<in> set mp" "(k', p) \<in> set mp"
    by (auto dest: map_of_SomeD)
  moreover from assms(1) have "inj_on snd (set mp)" by (simp add: distinct_map)
  ultimately have "(k', p) = (k, p)" using inj_onD [of snd "set mp" "(k', p)" "(k, p)"] by simp
  then show ?thesis by simp
qed

lemma model_properties_of_dict:
  "model_properties_of arguments
     = dict_of (map (\<lambda>a. (property_key a, property_name a)) arguments)"
  by (simp add: model_properties_of_def dict_of_def foldl_map)

lemma model_properties_of_SomeD:
  assumes "map_of (model_properties_of arguments) k = Some p"
  shows "\<exists>a \<in> set arguments. property_key a = k \<and> property_name a = p"
proof -
  from assms have "(k, p) \<in> set (map (\<lambda>a. (property_key a, property_name a)) arguments)"
    by (auto simp: model_properties_of_dict map_of_dict_of dest: map_of_SomeD)
  then show ?thesis by auto
qed

lemma model_properties_of_entry:
  assumes "a \<in> set arguments" and "distinct (map property_key arguments)"
  shows "map_of (model_properties_of arguments) (property_key a) = Some (property_name a)"
proof -
  let ?ps = "map (\<lambda>a. (property_key a, property_name a)) arguments"
  from assms(2) have inj: "inj_on property_key (set arguments)" by (simp add: distinct_map)
  have "map_of (rev ?ps) (property_key a) = Some (property_name a)"
  proof (rule map_of_rev_unique)
    show "(property_key a, property_name a) \<in> set ?ps" using assms(1) by force
    show "\<forall>w. (property_key a, w) \<in> set ?ps \<longrightarrow> w = property_name a"
    proof (intro allI impI)
      fix w assume "(property_key a, w) \<in> set ?ps"
      then obtain b where b: "b \<in> set arguments" "property_key b = property_key a"
        "w = property_name b" by auto
      from inj b(1) assms(1) b(2) have "b = a" using inj_onD [of property_key "set arguments" b a] by simp
      with b(3) show "w = property_name a" by simp
    qed
  qed
  then show ?thesis by (simp add: model_properties_of_dict map_of_dict_of)
qed

lemma update_append_new:
  "k \<notin> fst ` set al \<Longrightarrow> AList.update k v al = al @ [(k, v)]"
  by (induction al) auto

lemma foldl_update_fresh:
  "distinct (map fst (d0 @ ps)) \<Longrightarrow>
   foldl (\<lambda>d kv. AList.update (fst kv) (snd kv) d) d0 ps = d0 @ ps"
proof (induction ps arbitrary: d0)
  case Nil
  show ?case by simp
next
  case (Cons p ps)
  from Cons.prems have "fst p \<notin> fst ` set d0" by auto
  then have u: "AList.update (fst p) (snd p) d0 = d0 @ [p]"
    by (simp add: update_append_new)
  from Cons.prems have "distinct (map fst ((d0 @ [p]) @ ps))" by simp
  from Cons.IH [OF this] u show ?case by simp
qed

lemma dict_of_distinct: "distinct (map fst ps) \<Longrightarrow> dict_of ps = ps"
  using foldl_update_fresh [of "[]" ps] by (simp add: dict_of_def)

lemma model_properties_of_distinct:
  assumes "distinct (map property_key arguments)"
  shows "model_properties_of arguments
           = map (\<lambda>a. (property_key a, property_name a)) arguments"
proof -
  have "map fst (map (\<lambda>a. (property_key a, property_name a)) arguments)
          = map property_key arguments" by (simp add: comp_def)
  with assms
  have "distinct (map fst (map (\<lambda>a. (property_key a, property_name a)) arguments))"
    by (simp only:)
  then show ?thesis unfolding model_properties_of_dict by (rule dict_of_distinct)
qed

lemma some_truthy_constructs:
  assumes "distinct (map snd mp)" and "map_of mp k = Some p"
      and "getattr ns k = Inr v" and "truthy v"
  shows "list_ex truthy (map snd (properties_of mp ns))"
proof -
  have "map_of (properties_of mp ns) p = Some v"
  proof (rule properties_of_lookup)
    show "map_of mp k = Some p" by (rule assms(2))
    show "map_of ns k = Some v" using assms(3) by (simp add: getattr_Inr_iff)
    show "\<forall>k'. map_of mp k' = Some p \<and> map_of ns k' \<noteq> None \<longrightarrow> k' = k"
      using distinct_snd_inj [OF assms(1,2)] by blast
  qed
  then have "(p, v) \<in> set (properties_of mp ns)" by (rule map_of_SomeD)
  with assms(4) show ?thesis by (force simp: list_ex_iff)
qed

section \<open>Lemmas about binary64 rounding and the converter\<close>

lemma pow2_powi: "pow2 e = 2 powi e"
  by (simp add: pow2_def power_int_def field_simps)

lemma pow2_pos: "0 < pow2 e"
  by (simp add: pow2_powi)

lemma pow2_add: "pow2 (a + b) = pow2 a * pow2 b"
  by (simp add: pow2_powi power_int_add)

lemma pow2_diff: "pow2 (a - b) = pow2 a / pow2 b"
  by (simp add: pow2_powi power_int_diff)

lemma pow2_mono: "a \<le> b \<Longrightarrow> pow2 a \<le> pow2 b"
  by (simp add: pow2_powi power_int_increasing)

lemma pow2_less_iff: "pow2 a < pow2 b \<longleftrightarrow> a < b"
proof
  assume "pow2 a < pow2 b"
  show "a < b"
  proof (rule ccontr)
    assume "\<not> a < b"
    then have "pow2 b \<le> pow2 a" by (intro pow2_mono) simp
    with \<open>pow2 a < pow2 b\<close> show False by simp
  qed
next
  assume "a < b"
  then show "pow2 a < pow2 b" by (simp add: pow2_powi power_int_strict_increasing)
qed

lemma pow2_nat: "pow2 (int n) = 2 ^ n"
  by (simp add: pow2_def)

lemma pow2_int: "0 \<le> e \<Longrightarrow> pow2 e = of_int (2 ^ nat e)"
  by (simp add: pow2_def)

lemma round_half_even_of_int: "round_half_even (of_int n) = n"
  by (simp add: round_half_even_def)

lemma bitlen_lower: "0 < p \<Longrightarrow> pow2 (bitlen p - 1) \<le> of_int p"
proof -
  assume p: "0 < p"
  then have b: "1 \<le> bitlen p" by (simp add: bitlen_alt_def) 
  from bitlen_bounds [OF p] have "2 ^ nat (bitlen p - 1) \<le> p" by simp
  then have "(of_int (2 ^ nat (bitlen p - 1)) :: rat) \<le> of_int p" by (simp only: of_int_le_iff)
  with b show ?thesis by (simp add: pow2_def)
qed

lemma bitlen_upper: "0 < q \<Longrightarrow> of_int q < pow2 (bitlen q)"
proof -
  assume q: "0 < q"
  from bitlen_bounds [OF q] have "q < 2 ^ nat (bitlen q)" by simp
  then have "(of_int q :: rat) < of_int (2 ^ nat (bitlen q))" by (simp only: of_int_less_iff)
  then show ?thesis using bitlen_nonneg [of q] by (simp add: pow2_def)
qed

lemma binade_le:
  assumes "0 < x"
  shows "pow2 (binade x) \<le> x"
proof -
  obtain p q where pq: "quotient_of x = (p, q)" by (cases "quotient_of x")
  then have q: "0 < q" by (rule quotient_of_denom_pos)
  from pq have x: "x = of_int p / of_int q" by (rule quotient_of_div)
  with assms q have p: "0 < p" by (simp add: zero_less_divide_iff)
  let ?d = "bitlen p - bitlen q"
  show ?thesis
  proof (cases "pow2 ?d \<le> x")
    case True
    then show ?thesis by (simp add: binade_def pq)
  next
    case False
    have "pow2 (?d - 1) = pow2 (bitlen p - 1) / pow2 (bitlen q)"
      by (simp add: pow2_diff [symmetric] algebra_simps)
    also have "\<dots> \<le> of_int p / of_int q"
      using bitlen_lower [OF p] bitlen_upper [OF q] q p pow2_pos [of "bitlen p - 1"]
      by (intro frac_le) simp_all
    finally have "pow2 (?d - 1) \<le> x" by (simp add: x)
    with False show ?thesis by (simp add: binade_def pq)
  qed
qed

lemma to_double_exact:
  assumes m: "0 < m" "m < 2 ^ 53" and k: "- 1074 \<le> k"
      and fin: "of_int m * pow2 k < pow2 1024"
  shows "to_double (of_int m * pow2 k) = Finite (of_int m * pow2 k)"
proof -
  let ?x = "of_int m * pow2 k :: rat"
  have xpos: "0 < ?x" using m(1) pow2_pos [of k] by simp
  let ?e = "max (binade ?x) (- 1022)"
  have "pow2 (binade ?x) \<le> ?x" by (rule binade_le [OF xpos])
  also have "?x < 2 ^ 53 * pow2 k"
    using m(2) pow2_pos [of k] by simp
  also have "\<dots> = pow2 (53 + k)"
  proof -
    have "pow2 53 = 2 ^ 53" by (simp add: pow2_def)
    then show ?thesis by (simp only: pow2_add)
  qed
  finally have "binade ?x < 53 + k" by (simp add: pow2_less_iff)
  with k have j: "?e - 52 \<le> k" by simp
  define j where "j = ?e - 52"
  define N where "N = m * 2 ^ nat (k - j)"
  have "pow2 k = pow2 (k - j) * pow2 j" by (simp add: pow2_add [symmetric])
  moreover have "pow2 (k - j) = of_int (2 ^ nat (k - j))"
    using j by (simp add: pow2_int j_def)
  ultimately have xN: "?x = of_int N * pow2 j" by (simp add: N_def)
  have "?x / pow2 j = of_int N"
    using pow2_pos [of j] by (simp add: xN)
  then have "round_half_even (?x / pow2 j) = N"
    by (simp only: round_half_even_of_int)
  then have "of_int (round_half_even (?x / pow2 j)) * pow2 j = ?x"
    by (simp only: xN [symmetric])
  with xpos fin show ?thesis
    by (simp add: to_double_def Let_def j_def abs_of_pos)
qed


lemma to_double_pow2:
  assumes "- 1074 \<le> k" and "k < 1024"
  shows "to_double (pow2 k) = Finite (pow2 k)"
proof -
  from assms(2) have "pow2 k < pow2 1024" by (simp add: pow2_less_iff)
  with to_double_exact [of 1 k] assms(1) show ?thesis by simp
qed

lemma to_double_of_int_times_pow2:
  assumes n: "0 \<le> n" "n \<le> 2 ^ 53" and d: "- 1074 \<le> d" "d \<le> 900"
  shows "to_double (of_int n * pow2 d) = Finite (of_int n * pow2 d)"
proof -
  consider "n = 0" | "n = 2 ^ 53" | "0 < n" "n < 2 ^ 53" using n by fastforce
  then show ?thesis
  proof cases
    case 1
    then show ?thesis by (simp add: to_double_def)
  next
    case 2
    have "pow2 53 = 2 ^ 53" by (simp add: pow2_def)
    then have "of_int n * pow2 d = pow2 (53 + d)" by (simp add: 2 pow2_add)
    moreover have "to_double (pow2 (53 + d)) = Finite (pow2 (53 + d))"
      using d by (intro to_double_pow2) simp_all
    ultimately show ?thesis by simp
  next
    case 3
    have "of_int n * pow2 d < 2 ^ 53 * pow2 d"
      using 3(2) pow2_pos [of d] by simp
    also have "\<dots> = pow2 (53 + d)"
    proof -
      have "pow2 53 = 2 ^ 53" by (simp add: pow2_def)
      then show ?thesis by (simp only: pow2_add)
    qed
    also have "\<dots> < pow2 1024" using d by (simp add: pow2_less_iff)
    finally show ?thesis using 3 d(1) by (intro to_double_exact)
  qed
qed

lemma float_of_int_exact:
  assumes "0 \<le> n" and "n \<le> 2 ^ 53"
  shows "float_of_int n = Inr (of_int n)"
  using to_double_of_int_times_pow2 [OF assms, of 0]
  by (simp add: float_of_int_def pow2_def)

lemma py_mul_float_int_exact:
  assumes "0 \<le> n" and "n \<le> 2 ^ 53" and "- 1074 \<le> d" and "d \<le> 900"
  shows "py_mul_float_int (Finite (pow2 d)) n = Inr (Finite (of_int n * pow2 d))"
  using to_double_of_int_times_pow2 [OF assms] float_of_int_exact [OF assms(1,2)]
  by (simp add: py_mul_float_int_def mult.commute)

lemma int_of_float_scaled:
  assumes "0 \<le> n"
  shows "int_of_float (Finite (of_int n * pow2 (int i - int j))) = Inr (n * 2 ^ i div 2 ^ j)"
proof -
  have eq: "of_int n * pow2 (int i - int j) = (of_int (n * 2 ^ i) :: rat) / of_int (2 ^ j)"
    by (simp add: pow2_diff pow2_nat)
  have "0 \<le> (of_int (n * 2 ^ i) :: rat) / of_int (2 ^ j)" using assms by simp
  moreover have "\<lfloor>(of_int (n * 2 ^ i) :: rat) / of_int (2 ^ j)\<rfloor> = n * 2 ^ i div 2 ^ j"
    by (rule floor_divide_of_int_eq)
  ultimately show ?thesis unfolding eq by (simp add: int_of_float_def)
qed



lemma numeric_part_append:
  assumes "\<forall>c \<in> set ds. isdigit c" and "u = [] \<or> \<not> isdigit (hd u)"
  shows "takeWhile isdigit (ds @ u) = ds"
proof -
  from assms(2) have "takeWhile isdigit u = []" by (cases u) auto
  with assms(1) show ?thesis by simp
qed

lemma call_append:
  assumes "\<forall>c \<in> set ds. isdigit c" and "u = [] \<or> \<not> isdigit (hd u)"
  shows "call self (ds @ u) =
     (case factor_of (unit_map self) u of
        None \<Rightarrow> Inl ValueError
      | Some a \<Rightarrow>
          (case factor_of (unit_map self) (unit self) of
             None \<Rightarrow> Inl ValueError
           | Some b \<Rightarrow>
               (case py_truediv a b of
                  Inl e \<Rightarrow> Inl e
                | Inr uvals \<Rightarrow>
                    (case int_of_digits ds of
                       Inl e \<Rightarrow> Inl e
                     | Inr n \<Rightarrow>
                         (case py_mul_float_int uvals n of
                            Inl e \<Rightarrow> Inl e
                          | Inr p \<Rightarrow> int_of_float p)))))"
  by (simp add: call_def numeric_part_append [OF assms])






lemma storage_unit_map_entries:
  "py_truediv (PyFloat 1) (PyInt (1024 * 1024 * 1024)) = Inr (Finite (1 / (1024 * 1024 * 1024)))
 \<and> py_truediv (PyFloat 1) (PyInt (1024 * 1024)) = Inr (Finite (1 / (1024 * 1024)))
 \<and> py_truediv (PyFloat 1) (PyInt 1024) = Inr (Finite (1 / 1024))"
proof -
  have f: "float_of_int (2 ^ i) = Inr (2 ^ i)" if "i \<le> 30" for i :: nat
  proof -
    have "(2 :: int) ^ i \<le> 2 ^ 53" using that by (intro power_increasing) simp_all
    from float_of_int_exact [OF _ this] show ?thesis by simp
  qed
  have d: "to_double (1 / 2 ^ i) = Finite (1 / 2 ^ i)" if "i \<le> 30" for i :: nat
  proof -
    have "pow2 (- int i) = 1 / 2 ^ i" by (simp add: pow2_def)
    with to_double_pow2 [of "- int i"] that show ?thesis by simp
  qed
  have t: "py_truediv (PyFloat 1) (PyInt (2 ^ i)) = Inr (Finite (1 / 2 ^ i))" if "i \<le> 30" for i :: nat
    using f [OF that] d [OF that] by (simp add: py_truediv_def as_float_def)
  from t [of 30] t [of 20] t [of 10] show ?thesis by simp
qed

section \<open>The complex-argument aggregator\<close>

text \<open>
  Claim C2.  When no value collected from the namespace under a flag of the schema is
  truthy, \<open>_expansion_validator_impl\<close> only deletes: the result is the namespace without
  the matched keys, every matched key is gone, and every other attribute, the
  destination among them, is what it was.
\<close>

theorem aggregator_nothing_supplied:
  assumes "\<forall>k \<in> set (matched_keys mp ns). \<forall>v. getattr ns k = Inr v \<longrightarrow> \<not> truthy v"
  shows "expansion_validator_impl mp dest model_type ns = foldl delattr ns (matched_keys mp ns)
       \<and> (\<forall>k \<in> set (matched_keys mp ns).
             getattr (expansion_validator_impl mp dest model_type ns) k = Inl (AttributeError k))
       \<and> (\<forall>k. k \<notin> set (matched_keys mp ns) \<longrightarrow>
             getattr (expansion_validator_impl mp dest model_type ns) k = getattr ns k)"
proof -
  have "\<not> truthy v" if "v \<in> snd ` set (properties_of mp ns)" for v
  proof -
    from properties_of_values [OF that] obtain k
      where "k \<in> set (matched_keys mp ns)" "map_of ns k = Some v" by blast
    with assms show ?thesis by (simp add: getattr_Inr_iff)
  qed
  then have "\<not> list_ex truthy (map snd (properties_of mp ns))"
    by (auto simp: list_ex_iff)
  then have eq: "expansion_validator_impl mp dest model_type ns
                   = foldl delattr ns (matched_keys mp ns)"
    by (rule expansion_nothing_truthy)
  show ?thesis
    unfolding eq by (simp add: getattr_foldl_delattr)
qed

theorem aggregator_nothing_supplied_witness:
  "expansion_validator_impl (model_properties_of [Plain ''capacity'', Plain ''family''])
      ''sku'' PModel
      [(''capacity'', PInt 0), (''family'', PStr []), (''sku'', PNone), (''tier'', PBool False)]
     = [(''sku'', PNone), (''tier'', PBool False)]"
proof -
  let ?mp = "model_properties_of [Plain ''capacity'', Plain ''family'']"
  let ?ns = "[(''capacity'', PInt 0), (''family'', PStr []), (''sku'', PNone),
              (''tier'', PBool False)]"
  have mk: "matched_keys ?mp ?ns = [''capacity'', ''family'']"
    by (simp add: matched_keys_def vars_def model_properties_of_def)
  have h: "\<forall>k \<in> set (matched_keys ?mp ?ns). \<forall>v. getattr ?ns k = Inr v \<longrightarrow> \<not> truthy v"
    unfolding mk by (simp add: getattr_def)
  from aggregator_nothing_supplied [OF h, of "''sku''" PModel] show ?thesis
    unfolding mk by (simp add: delattr_def)
qed

text \<open>
  Claim C1, as the code has it.  For a schema in which no two flags name the same
  property and whose flags do not include the destination, if some matched key holds a
  truthy value then the destination ends up holding the object constructed from
  \<open>properties\<close>, and \<open>properties\<close> has one keyword argument for every matched key, under
  its property name and with the value the namespace held, \<open>None\<close> included, and no
  other keyword argument; every matched key is deleted.
\<close>

theorem aggregator_passes_every_matched_key:
  assumes "distinct (map snd mp)"
      and "\<exists>k \<in> set (matched_keys mp ns). \<exists>v. getattr ns k = Inr v \<and> truthy v"
      and "map_of mp dest = None"
  shows "getattr (expansion_validator_impl mp dest model_type ns) dest
           = Inr (model_type (properties_of mp ns))
       \<and> (\<forall>k p v. map_of mp k = Some p \<and> getattr ns k = Inr v
             \<longrightarrow> map_of (properties_of mp ns) p = Some v)
       \<and> (\<forall>p. p \<in> fst ` set (properties_of mp ns)
             \<longrightarrow> (\<exists>k \<in> set (matched_keys mp ns). map_of mp k = Some p))
       \<and> (\<forall>k \<in> set (matched_keys mp ns).
             getattr (expansion_validator_impl mp dest model_type ns) k = Inl (AttributeError k))"
proof -
  have look: "map_of (properties_of mp ns) p = Some v"
    if "map_of mp k = Some p" "getattr ns k = Inr v" for k p v
  proof (rule properties_of_lookup)
    show "map_of mp k = Some p" by (rule that(1))
    show "map_of ns k = Some v" using that(2) by (simp add: getattr_Inr_iff)
    show "\<forall>k'. map_of mp k' = Some p \<and> map_of ns k' \<noteq> None \<longrightarrow> k' = k"
      using distinct_snd_inj [OF assms(1) that(1)] by blast
  qed
  from assms(2) obtain k v where kv: "k \<in> set (matched_keys mp ns)"
    "getattr ns k = Inr v" "truthy v" by blast
  from kv(1) obtain p where p: "map_of mp k = Some p" by (auto simp: matched_keys_iff)
  from look [OF p kv(2)] have "(p, v) \<in> set (properties_of mp ns)"
    by (rule map_of_SomeD)
  with kv(3) have "list_ex truthy (map snd (properties_of mp ns))"
    by (force simp: list_ex_iff)
  then have eq: "expansion_validator_impl mp dest model_type ns
      = foldl delattr (setattr ns dest (model_type (properties_of mp ns))) (matched_keys mp ns)"
    by (rule expansion_some_truthy)
  from assms(3) have nd: "dest \<notin> set (matched_keys mp ns)" by (simp add: matched_keys_iff)
  have keys: "\<exists>k \<in> set (matched_keys mp ns). map_of mp k = Some p"
    if "p \<in> fst ` set (properties_of mp ns)" for p
    using that unfolding properties_of_keys by (auto simp: matched_keys_iff)
  have c1: "getattr (expansion_validator_impl mp dest model_type ns) dest
              = Inr (model_type (properties_of mp ns))"
    unfolding eq using nd by (simp add: getattr_foldl_delattr getattr_setattr)
  have c2: "\<forall>k p v. map_of mp k = Some p \<and> getattr ns k = Inr v
              \<longrightarrow> map_of (properties_of mp ns) p = Some v"
    using look by blast
  have c3: "\<forall>p. p \<in> fst ` set (properties_of mp ns)
              \<longrightarrow> (\<exists>k \<in> set (matched_keys mp ns). map_of mp k = Some p)"
    using keys by blast
  have c4: "\<forall>k \<in> set (matched_keys mp ns).
              getattr (expansion_validator_impl mp dest model_type ns) k = Inl (AttributeError k)"
    unfolding eq by (simp add: getattr_foldl_delattr)
  from c1 c2 c3 c4 show ?thesis by (intro conjI)
qed

theorem aggregator_passes_every_matched_key_witness:
  "getattr (expansion_validator_impl (model_properties_of [Plain ''capacity'', Plain ''family''])
              ''sku'' PModel
              [(''capacity'', PInt 2), (''family'', PNone), (''sku'', PNone)]) ''sku''
     = Inr (PModel (properties_of (model_properties_of [Plain ''capacity'', Plain ''family''])
                      [(''capacity'', PInt 2), (''family'', PNone), (''sku'', PNone)]))
   \<and> getattr (expansion_validator_impl (model_properties_of [Plain ''capacity'', Plain ''family''])
              ''sku'' PModel
              [(''capacity'', PInt 2), (''family'', PNone), (''sku'', PNone)]) ''family''
     = Inl (AttributeError ''family'')"
proof -
  let ?mp = "model_properties_of [Plain ''capacity'', Plain ''family'']"
  let ?ns = "[(''capacity'', PInt 2), (''family'', PNone), (''sku'', PNone)]"
  have mp: "?mp = [(''capacity'', ''capacity''), (''family'', ''family'')]"
    by (simp add: model_properties_of_def)
  have mk: "matched_keys ?mp ?ns = [''capacity'', ''family'']"
    by (simp add: matched_keys_def vars_def mp)
  have h1: "distinct (map snd ?mp)" by (simp add: mp)
  have h2: "\<exists>k \<in> set (matched_keys ?mp ?ns). \<exists>v. getattr ?ns k = Inr v \<and> truthy v"
    unfolding mk by (simp add: getattr_def)
  have h3: "map_of ?mp ''sku'' = None" by (simp add: mp)
  from aggregator_passes_every_matched_key [OF h1 h2 h3, of PModel] show ?thesis
    unfolding mk by simp
qed

text \<open>
  Claim C1 as stated fails: with \<open>capacity\<close> supplied and \<open>family\<close> left at \<open>None\<close>, the
  constructor receives \<open>family=None\<close> as well, not \<open>capacity\<close> alone.
\<close>

theorem aggregator_omits_none_counterexample:
  "getattr (expansion_validator_impl (model_properties_of [Plain ''capacity'', Plain ''family''])
              ''sku'' PModel
              [(''capacity'', PInt 2), (''family'', PNone), (''sku'', PNone)]) ''sku''
     = Inr (PModel [(''capacity'', PInt 2), (''family'', PNone)])
   \<and> PModel [(''capacity'', PInt 2), (''family'', PNone)] \<noteq> PModel [(''capacity'', PInt 2)]"
  by (simp add: expansion_validator_impl_def model_properties_of_def matched_keys_def vars_def
                properties_of_def dict_of_def getattr_def setattr_def delattr_def)

text \<open>
  Claim C3.  Take a schema with distinct property names and distinct flag names, none
  of them the destination, and a namespace in which some flag of the schema holds a
  truthy value, so that the object is constructed.  For an entry
  \<open>(property name, exposed name)\<close>, the value the namespace holds under the exposed
  name is a keyword argument of the constructed object under the property name; and the
  exposed name is no keyword argument, unless the schema has it as a property name too.
\<close>

theorem renamed_flag_keyed_by_property_name:
  assumes "Tuple pname pkey \<in> set arguments"
      and "distinct (map property_key arguments)"
      and "distinct (map property_name arguments)"
      and "dest \<noteq> []" and "dest \<notin> set (map property_key arguments)"
      and "getattr ns pkey = Inr v"
      and "\<exists>a \<in> set arguments. \<exists>w. getattr ns (property_key a) = Inr w \<and> truthy w"
  shows "\<exists>validator kwargs.
           create_args_for_complex_type dest model_type arguments = Some validator
         \<and> getattr (validator ns) dest = Inr (model_type kwargs)
         \<and> map_of kwargs pname = Some v
         \<and> (pkey \<notin> set (map property_name arguments) \<longrightarrow> pkey \<notin> fst ` set kwargs)"
proof -
  let ?mp = "model_properties_of arguments"
  let ?kw = "properties_of ?mp ns"
  have mpeq: "?mp = map (\<lambda>a. (property_key a, property_name a)) arguments"
    by (rule model_properties_of_distinct [OF assms(2)])
  have dsnd: "distinct (map snd ?mp)" using assms(3) by (simp add: mpeq comp_def)
  have entry: "map_of ?mp (property_key a) = Some (property_name a)" if "a \<in> set arguments" for a
    by (rule model_properties_of_entry [OF that assms(2)])
  from entry [OF assms(1)] have mp: "map_of ?mp pkey = Some pname" by simp
  have kw: "map_of ?kw pname = Some v"
  proof (rule properties_of_lookup)
    show "map_of ?mp pkey = Some pname" by (rule mp)
    show "map_of ns pkey = Some v" using assms(6) by (simp add: getattr_Inr_iff)
    show "\<forall>k'. map_of ?mp k' = Some pname \<and> map_of ns k' \<noteq> None \<longrightarrow> k' = pkey"
      using distinct_snd_inj [OF dsnd mp] by blast
  qed
  from assms(7) obtain a w where a: "a \<in> set arguments"
    "getattr ns (property_key a) = Inr w" "truthy w" by blast
  have "list_ex truthy (map snd ?kw)"
    by (rule some_truthy_constructs [OF dsnd entry [OF a(1)] a(2,3)])
  then have eq: "expansion_validator_impl ?mp dest model_type ns
      = foldl delattr (setattr ns dest (model_type ?kw)) (matched_keys ?mp ns)"
    by (rule expansion_some_truthy)
  have "map_of ?mp dest = None"
    using assms(5) by (simp add: mpeq map_of_eq_None_iff image_image)
  then have nd: "dest \<notin> set (matched_keys ?mp ns)" by (simp add: matched_keys_iff)
  have dest: "getattr (expansion_validator_impl ?mp dest model_type ns) dest
                = Inr (model_type ?kw)"
    unfolding eq using nd by (simp add: getattr_foldl_delattr getattr_setattr)
  have notkey: "pkey \<notin> fst ` set ?kw" if "pkey \<notin> set (map property_name arguments)"
  proof
    assume "pkey \<in> fst ` set ?kw"
    then obtain k where "map_of ?mp k = Some pkey" unfolding properties_of_keys by blast
    then obtain a where "a \<in> set arguments" "property_name a = pkey"
      using model_properties_of_SomeD by blast
    with that show False by force
  qed
  have "create_args_for_complex_type dest model_type arguments
          = Some (expansion_validator_impl ?mp dest model_type)"
    using assms(4) by (simp add: create_args_for_complex_type_def)
  with dest kw notkey show ?thesis by blast
qed

theorem renamed_flag_keyed_by_property_name_witness:
  "\<exists>validator kwargs.
      create_args_for_complex_type ''output'' PModel
         [Tuple ''server_name'' ''output_server_name'', Plain ''database_name''] = Some validator
    \<and> getattr (validator [(''output_server_name'', PStr ''srv''), (''database_name'', PNone)])
         ''output'' = Inr (PModel kwargs)
    \<and> map_of kwargs ''server_name'' = Some (PStr ''srv'')
    \<and> ''output_server_name'' \<notin> fst ` set kwargs"
proof -
  let ?args = "[Tuple ''server_name'' ''output_server_name'', Plain ''database_name'']"
  let ?ns = "[(''output_server_name'', PStr ''srv''), (''database_name'', PNone)]"
  have h7: "\<exists>a \<in> set ?args. \<exists>w. getattr ?ns (property_key a) = Inr w \<and> truthy w"
    by (simp add: getattr_def)
  from renamed_flag_keyed_by_property_name [of "''server_name''" "''output_server_name''"
      ?args "''output''" ?ns "PStr ''srv''" PModel] h7
  show ?thesis by (simp add: getattr_def)
qed

section \<open>The standalone validators\<close>

text \<open>
  Claim C8.  \<open>validate_managed_instance_storage_size\<close> never changes the namespace; when
  the attribute \<open>storage_size_in_gb\<close> is there, the call returns for \<open>None\<close> and for a
  size that 32 divides, and raises the usage error for every other size.
\<close>

theorem storage_size_granularity:
  "snd (validate_managed_instance_storage_size ns) = ns \<and>
   (getattr ns ''storage_size_in_gb'' = Inr x \<longrightarrow>
      fst (validate_managed_instance_storage_size ns) =
        (case x of None \<Rightarrow> None
         | Some n \<Rightarrow> if n mod 32 = 0 then None else Some storage_usage_error))"
  by (auto simp: validate_managed_instance_storage_size_def truthy_int_def
           split: sum.splits option.splits)

theorem storage_size_granularity_witness:
  "validate_managed_instance_storage_size [(''storage_size_in_gb'', Some 64)]
     = (None, [(''storage_size_in_gb'', Some 64)]) \<and>
   validate_managed_instance_storage_size [(''storage_size_in_gb'', Some 50)]
     = (Some storage_usage_error, [(''storage_size_in_gb'', Some 50)]) \<and>
   validate_managed_instance_storage_size [(''storage_size_in_gb'', None)]
     = (None, [(''storage_size_in_gb'', None)])"
  using storage_size_granularity [of "[(''storage_size_in_gb'', Some 64)]" "Some 64"]
        storage_size_granularity [of "[(''storage_size_in_gb'', Some 50)]" "Some 50"]
        storage_size_granularity [of "[(''storage_size_in_gb'', None)]" "None"]
  by (simp add: getattr_def prod_eq_iff)

text \<open>
  Claim C9.  Whenever \<open>validate_subnet\<close> raises (the usage error, or any other), the
  namespace is the one it was given: the subnet field keeps its value and \<open>vnet_name\<close> is
  still there.
\<close>

theorem validate_subnet_error_leaves_namespace:
  "fst (validate_subnet is_valid_resource_id subscription ns) = Some e \<Longrightarrow>
   snd (validate_subnet is_valid_resource_id subscription ns) = ns"
  by (auto simp: validate_subnet_def Let_def split: sum.splits option.splits if_splits)

theorem validate_subnet_error_leaves_namespace_witness:
  "fst (validate_subnet sample_is_valid_resource_id ''S''
          [(''virtual_network_subnet_id'', Some ''mysubnet''), (''vnet_name'', None)])
     = Some subnet_usage_error
   \<and> snd (validate_subnet sample_is_valid_resource_id ''S''
          [(''virtual_network_subnet_id'', Some ''mysubnet''), (''vnet_name'', None)])
     = [(''virtual_network_subnet_id'', Some ''mysubnet''), (''vnet_name'', None)]"
proof -
  have h: "fst (validate_subnet sample_is_valid_resource_id ''S''
                  [(''virtual_network_subnet_id'', Some ''mysubnet''), (''vnet_name'', None)])
             = Some subnet_usage_error"
    by (simp add: validate_subnet_def getattr_def truthy_str_def
                  sample_is_valid_resource_id_def)
  from h validate_subnet_error_leaves_namespace [OF h] show ?thesis by simp
qed

text \<open>
  Claim C6.  When the subnet field holds a non-empty string that is not a resource
  identifier and \<open>vnet_name\<close> holds a non-empty string, \<open>validate_subnet\<close> returns, the
  subnet field then holds
  \<open>/subscriptions/S/resourceGroups/RG/providers/Microsoft.Network/virtualNetworks/<vnet>/subnets/<subnet>\<close>
  for the subscription \<open>S\<close> and the namespace's resource group \<open>RG\<close>, \<open>vnet_name\<close> is
  gone, and every other attribute is as before.
\<close>

theorem validate_subnet_synthesis:
  assumes "getattr ns ''virtual_network_subnet_id'' = Inr (Some subnet)"
      and "subnet \<noteq> []" and "\<not> is_valid_resource_id (Some subnet)"
      and "getattr ns ''vnet_name'' = Inr (Some vnet)" and "vnet \<noteq> []"
      and "getattr ns ''resource_group_name'' = Inr (Some rg)"
  shows "\<exists>ns'. validate_subnet is_valid_resource_id subscription ns = (None, ns') \<and>
           getattr ns' ''virtual_network_subnet_id'' =
             Inr (Some (''/subscriptions/'' @ subscription @ ''/resourceGroups/'' @ rg
                        @ ''/providers/Microsoft.Network/virtualNetworks/'' @ vnet
                        @ ''/subnets/'' @ subnet)) \<and>
           getattr ns' ''vnet_name'' = Inl (AttributeError ''vnet_name'') \<and>
           (\<forall>k. k \<noteq> ''virtual_network_subnet_id'' \<and> k \<noteq> ''vnet_name''
                \<longrightarrow> getattr ns' k = getattr ns k)"
  using assms
  by (simp add: validate_subnet_def truthy_str_def resource_id_def
                getattr_delattr getattr_setattr)

theorem validate_subnet_synthesis_witness:
  "\<exists>ns'. validate_subnet sample_is_valid_resource_id ''S''
            [(''virtual_network_subnet_id'', Some ''mysubnet''), (''vnet_name'', Some ''myvnet''),
             (''resource_group_name'', Some ''RG'')] = (None, ns')
       \<and> getattr ns' ''virtual_network_subnet_id'' =
            Inr (Some ''/subscriptions/S/resourceGroups/RG/providers/Microsoft.Network/virtualNetworks/myvnet/subnets/mysubnet'')
       \<and> getattr ns' ''vnet_name'' = Inl (AttributeError ''vnet_name'')"
proof -
  let ?ns = "[(''virtual_network_subnet_id'', Some ''mysubnet''), (''vnet_name'', Some ''myvnet''),
              (''resource_group_name'', Some ''RG'')]"
  have h1: "getattr ?ns ''virtual_network_subnet_id'' = Inr (Some ''mysubnet'')"
    by (simp add: getattr_def)
  have h2: "''mysubnet'' \<noteq> []" by simp
  have h3: "\<not> sample_is_valid_resource_id (Some ''mysubnet'')"
    by (simp add: sample_is_valid_resource_id_def)
  have h4: "getattr ?ns ''vnet_name'' = Inr (Some ''myvnet'')" by (simp add: getattr_def)
  have h5: "''myvnet'' \<noteq> []" by simp
  have h6: "getattr ?ns ''resource_group_name'' = Inr (Some ''RG'')" by (simp add: getattr_def)
  from validate_subnet_synthesis [of ?ns "''mysubnet''" sample_is_valid_resource_id
         "''myvnet''" "''RG''" "''S''", OF h1 h2 h3 h4 h5 h6]
  obtain ns' where "validate_subnet sample_is_valid_resource_id ''S'' ?ns = (None, ns')"
    and "getattr ns' ''virtual_network_subnet_id'' =
           Inr (Some (''/subscriptions/'' @ ''S'' @ ''/resourceGroups/'' @ ''RG''
                      @ ''/providers/Microsoft.Network/virtualNetworks/'' @ ''myvnet''
                      @ ''/subnets/'' @ ''mysubnet''))"
    and "getattr ns' ''vnet_name'' = Inl (AttributeError ''vnet_name'')"
    by blast
  then show ?thesis by auto
qed

text \<open>
  Claim C7, as the code has it.  With both attributes there, \<open>validate_subnet\<close> raises
  the usage error exactly when a vnet name is given and the subnet is a resource
  identifier or is not given, or when no vnet name is given and the subnet is a short
  name.  When no vnet name is given and the subnet is a resource identifier or is not
  given, it returns and the namespace is the old one without \<open>vnet_name\<close>.
\<close>

theorem validate_subnet_outcomes:
  assumes "getattr ns ''virtual_network_subnet_id'' = Inr subnet"
      and "getattr ns ''vnet_name'' = Inr vnet"
  shows "(fst (validate_subnet is_valid_resource_id subscription ns) = Some subnet_usage_error
            \<longleftrightarrow> (truthy_str vnet \<and> (is_valid_resource_id subnet \<or> \<not> truthy_str subnet))
                \<or> (\<not> truthy_str vnet \<and> truthy_str subnet \<and> \<not> is_valid_resource_id subnet))
       \<and> ((is_valid_resource_id subnet \<or> \<not> truthy_str subnet) \<and> \<not> truthy_str vnet
            \<longrightarrow> validate_subnet is_valid_resource_id subscription ns
                  = (None, delattr ns ''vnet_name''))"
  using assms
  by (auto simp: validate_subnet_def truthy_str_def subnet_usage_error_def getattr_def
           split: sum.splits option.splits if_splits)

theorem validate_subnet_outcomes_witness:
  "fst (validate_subnet sample_is_valid_resource_id ''S''
          [(''virtual_network_subnet_id'', Some ''/subscriptions/S/x''),
           (''vnet_name'', Some ''myvnet'')]) = Some subnet_usage_error
   \<and> validate_subnet sample_is_valid_resource_id ''S''
          [(''virtual_network_subnet_id'', Some ''/subscriptions/S/x''), (''vnet_name'', None)]
       = (None, [(''virtual_network_subnet_id'', Some ''/subscriptions/S/x'')])"
  using validate_subnet_outcomes [of
      "[(''virtual_network_subnet_id'', Some ''/subscriptions/S/x''),
        (''vnet_name'', Some ''myvnet'')]"
      "Some ''/subscriptions/S/x''" "Some ''myvnet''" sample_is_valid_resource_id "''S''"]
    validate_subnet_outcomes [of
      "[(''virtual_network_subnet_id'', Some ''/subscriptions/S/x''), (''vnet_name'', None)]"
      "Some ''/subscriptions/S/x''" "None" sample_is_valid_resource_id "''S''"]
  by (simp add: getattr_def sample_is_valid_resource_id_def truthy_str_def delattr_def)

text \<open>
  Claim C7 as stated fails twice.  A vnet name with no subnet raises the usage error,
  though the subnet is neither a resource identifier nor a short name; and with neither
  subnet nor vnet name given the call returns a namespace that is not the one it was
  given (\<open>vnet_name\<close> is deleted).
\<close>

theorem validate_subnet_outcomes_counterexample:
  "validate_subnet sample_is_valid_resource_id ''S''
      [(''virtual_network_subnet_id'', None), (''vnet_name'', Some ''myvnet'')]
     = (Some subnet_usage_error,
        [(''virtual_network_subnet_id'', None), (''vnet_name'', Some ''myvnet'')])
   \<and> validate_subnet sample_is_valid_resource_id ''S''
      [(''virtual_network_subnet_id'', None), (''vnet_name'', None)]
     = (None, [(''virtual_network_subnet_id'', None)])
   \<and> [(''virtual_network_subnet_id'', None :: string option)]
     \<noteq> [(''virtual_network_subnet_id'', None), (''vnet_name'', None)]"
  by (simp add: validate_subnet_def getattr_def truthy_str_def delattr_def
                sample_is_valid_resource_id_def)

section \<open>The size converter\<close>




text \<open>
  Claim C5.  When what follows the leading digits of the input is not empty and is not
  a key of the unit map, \<open>__call__\<close> raises \<open>ValueError\<close> (which argparse reports as an
  invalid argument) and returns no value.
\<close>

theorem unknown_unit_raises:
  assumes "dropWhile isdigit value \<noteq> []"
      and "map_of (unit_map self) (dropWhile isdigit value) = None"
  shows "call self value = Inl ValueError"
proof -
  have "drop (length (takeWhile isdigit value)) value = dropWhile isdigit value"
    by (simp add: dropWhile_eq_drop)
  with assms
  have "factor_of (unit_map self) (drop (length (takeWhile isdigit value)) value) = None"
    by (simp add: factor_of_def)
  then show ?thesis by (simp add: call_def Let_def)
qed

theorem unknown_unit_raises_witness:
  "call (SizeWithUnitConverter ''B'' None) ''10XB'' = Inl ValueError"
proof -
  have d: "dropWhile isdigit ''10XB'' = ''XB''" by (simp add: isdigit_def)
  have "map_of (unit_map (SizeWithUnitConverter ''B'' None)) ''XB'' = None"
    by (simp add: SizeWithUnitConverter_def default_unit_map_def)
  with unknown_unit_raises [of "''10XB''" "SizeWithUnitConverter ''B'' None"] d
  show ?thesis by simp
qed

text \<open>
  Claim C10.  The converter of \<open>--storage\<close> (base \<open>GB\<close>) turns every input of digits
  with a suffix \<open>B\<close>, \<open>kB\<close> or \<open>MB\<close> that denotes a positive size below one gigabyte
  into \<open>0\<close>, and \<open>validate_managed_instance_storage_size\<close> accepts a namespace whose
  \<open>storage_size_in_gb\<close> is \<open>0\<close>, as it accepts \<open>None\<close>.
\<close>

theorem storage_below_one_gigabyte:
  assumes "\<forall>c \<in> set ds. isdigit c" and "int_of_digits ds = Inr n" and "0 < n"
      and "(u = ''B'' \<and> n < 1024 * 1024 * 1024) \<or> (u = ''kB'' \<and> n < 1024 * 1024)
           \<or> (u = ''MB'' \<and> n < 1024)"
  shows "call storage_converter (ds @ u) = Inr 0
       \<and> (\<forall>ns. getattr ns ''storage_size_in_gb'' = Inr (Some 0)
             \<longrightarrow> validate_managed_instance_storage_size ns = (None, ns))"
proof -
  from assms(4) obtain i :: nat
    where i: "i \<le> 30" "n < 2 ^ i" "map_of storage_unit_map u = Some (PyFloat (1 / 2 ^ i))"
      and u: "u \<noteq> []" "\<not> isdigit (hd u)"
  proof (elim disjE conjE)
    assume "u = ''B''" "n < 1024 * 1024 * 1024"
    then show ?thesis using that [of 30] by (simp add: storage_unit_map_def isdigit_def)
  next
    assume "u = ''kB''" "n < 1024 * 1024"
    then show ?thesis using that [of 20] by (simp add: storage_unit_map_def isdigit_def)
  next
    assume "u = ''MB''" "n < 1024"
    then show ?thesis using that [of 10] by (simp add: storage_unit_map_def isdigit_def)
  qed
  have p: "pow2 (- int i) = 1 / 2 ^ i" by (simp add: pow2_def)
  have "n < 2 ^ 53"
  proof -
    have "(2 :: int) ^ i \<le> 2 ^ 53" using i(1) by (intro power_increasing) simp_all
    with i(2) show ?thesis by simp
  qed
  then have n: "0 \<le> n" "n \<le> 2 ^ 53" using assms(3) by simp_all
  have one: "float_of_int 1 = Inr 1" using float_of_int_exact [of 1] by simp
  have "to_double (pow2 (- int i)) = Finite (pow2 (- int i))"
    using i(1) by (intro to_double_pow2) simp_all
  then have div: "py_truediv (PyFloat (1 / 2 ^ i)) (PyInt 1) = Inr (Finite (pow2 (- int i)))"
    using one by (simp add: py_truediv_def as_float_def p)
  have mul: "py_mul_float_int (Finite (pow2 (- int i))) n
               = Inr (Finite (of_int n * pow2 (- int i)))"
    using n i(1) by (intro py_mul_float_int_exact) simp_all
  have "int_of_float (Finite (of_int n * pow2 (int 0 - int i))) = Inr (n * 2 ^ 0 div 2 ^ i)"
    using n(1) by (rule int_of_float_scaled)
  moreover have "n div 2 ^ i = 0" using i(2) assms(3) by simp
  ultimately have trunc: "int_of_float (Finite (of_int n * pow2 (- int i))) = Inr 0" by simp
  have conv: "call storage_converter (ds @ u) = Inr 0"
    using call_append [OF assms(1), of u storage_converter] u i(3) assms(2) div mul trunc
    by (simp add: storage_converter_def SizeWithUnitConverter_def factor_of_def
                  storage_unit_map_def)
  have "validate_managed_instance_storage_size ns = (None, ns)"
    if "getattr ns ''storage_size_in_gb'' = Inr (Some 0)" for ns
    using that by (simp add: validate_managed_instance_storage_size_def truthy_int_def)
  with conv show ?thesis by blast
qed

theorem storage_below_one_gigabyte_witness:
  "call storage_converter ''1MB'' = Inr 0 \<and> call storage_converter ''512kB'' = Inr 0
 \<and> call storage_converter ''1023B'' = Inr 0
 \<and> validate_managed_instance_storage_size [(''storage_size_in_gb'', Some 0)]
      = (None, [(''storage_size_in_gb'', Some 0)])"
proof -
  have d: "\<forall>c \<in> set ''1''. isdigit c" "\<forall>c \<in> set ''512''. isdigit c"
    "\<forall>c \<in> set ''1023''. isdigit c"
    by (simp_all add: isdigit_def)
  have v: "int_of_digits ''1'' = Inr 1" "int_of_digits ''512'' = Inr 512"
    "int_of_digits ''1023'' = Inr 1023"
    by (simp_all add: int_of_digits_def digit_value_def)
  have g: "getattr [(''storage_size_in_gb'', Some (0 :: int))] ''storage_size_in_gb''
             = Inr (Some 0)"
    by (simp add: getattr_def)
  from storage_below_one_gigabyte [OF d(1) v(1), of "''MB''"]
       storage_below_one_gigabyte [OF d(2) v(2), of "''kB''"]
       storage_below_one_gigabyte [OF d(3) v(3), of "''B''"] g
  show ?thesis by simp
qed

end
